theory Spec2Isabelle
  imports Complex_Main "HOL-Library.Multiset"
begin

section \<open>Python primitives the program relies on\<close>

text \<open>
  Strings are \<open>char list\<close>. The program only handles URLs, so the difference between
  bytes and Python's code points plays no role. Floating-point numbers (clock readings,
  speeds) are idealised as exact rationals.
\<close>

datatype py_exn = RequestException | HTTPError int | ValueError | IndexError

text \<open>\<^verbatim>\<open>s.startswith(p)\<close>\<close>

definition startswith :: "string \<Rightarrow> string \<Rightarrow> bool" where
  "startswith s p = (take (length p) s = p)"

text \<open>Index of the first occurrence of \<open>p\<close> in \<open>s\<close>, scanning from the left.\<close>

fun find_index :: "string \<Rightarrow> string \<Rightarrow> nat option" where
  "find_index p [] = (if p = [] then Some 0 else None)"
| "find_index p (c # cs) =
     (if startswith (c # cs) p then Some 0 else map_option Suc (find_index p cs))"

text \<open>\<^verbatim>\<open>s.find(p)\<close>: the index of the first occurrence, \<open>-1\<close> when there is none.\<close>

definition str_find :: "string \<Rightarrow> string \<Rightarrow> int" where
  "str_find s p = (case find_index p s of None \<Rightarrow> - 1 | Some k \<Rightarrow> int k)"

text \<open>\<^verbatim>\<open>p in s\<close>\<close>

definition str_contains :: "string \<Rightarrow> string \<Rightarrow> bool" where
  "str_contains s p = (find_index p s \<noteq> None)"

text \<open>\<^verbatim>\<open>s[:i]\<close>: a negative bound counts from the end.\<close>

definition slice_to :: "string \<Rightarrow> int \<Rightarrow> string" where
  "slice_to s i = (if 0 \<le> i then take (nat i) s else take (length s - nat (- i)) s)"

text \<open>
  \<^verbatim>\<open>s.rsplit(sep, maxsplit)\<close> for a one-character separator: the string is scanned from
  its right end and cut at the rightmost \<open>maxsplit\<close> separators. The helper walks the
  reversed string; \<open>cur\<close> is the piece being read and \<open>acc\<close> the pieces already cut,
  both in reading order.
\<close>

fun rsplit_aux :: "char \<Rightarrow> nat \<Rightarrow> string \<Rightarrow> string \<Rightarrow> string list \<Rightarrow> string list" where
  "rsplit_aux sep n [] cur acc = cur # acc"
| "rsplit_aux sep n (c # r) cur acc =
     (if c = sep \<and> 0 < n then rsplit_aux sep (n - 1) r [] (cur # acc)
      else rsplit_aux sep n r (c # cur) acc)"

definition str_rsplit :: "string \<Rightarrow> char \<Rightarrow> nat \<Rightarrow> string list" where
  "str_rsplit s sep maxsplit = rsplit_aux sep maxsplit (rev s) [] []"

text \<open>\<^verbatim>\<open>xs[0]\<close> raises IndexError on an empty list.\<close>

definition item0 :: "'a list \<Rightarrow> py_exn + 'a" where
  "item0 xs = (case xs of [] \<Rightarrow> Inl IndexError | x # _ \<Rightarrow> Inr x)"

text \<open>\<^verbatim>\<open>list(dict.fromkeys(xs))\<close>: the keys of a dict in insertion order.\<close>

fun fromkeys_aux :: "'a list \<Rightarrow> 'a list \<Rightarrow> 'a list" where
  "fromkeys_aux keys [] = keys"
| "fromkeys_aux keys (x # xs) =
     fromkeys_aux (if x \<in> set keys then keys else keys @ [x]) xs"

definition dict_fromkeys :: "'a list \<Rightarrow> 'a list" where
  "dict_fromkeys xs = fromkeys_aux [] xs"

text \<open>
  A dict as an association list in insertion order. \<^verbatim>\<open>d[k] = v\<close> overwrites the value
  of a key that is present, in place, and appends a new key.
\<close>

type_synonym 'v dict = "(string \<times> 'v) list"

fun dict_set :: "'v dict \<Rightarrow> string \<Rightarrow> 'v \<Rightarrow> 'v dict" where
  "dict_set [] k v = [(k, v)]"
| "dict_set ((k', v') # d) k v =
     (if k' = k then (k', v) # d else (k', v') # dict_set d k v)"

text \<open>\<^verbatim>\<open>str(n)\<close> for a non-negative integer.\<close>

fun str_nat :: "nat \<Rightarrow> string" where
  "str_nat n =
     (if n < 10 then [''0123456789'' ! n]
      else str_nat (n div 10) @ [''0123456789'' ! (n mod 10)])"

declare str_nat.simps [simp del]

text \<open>The format specifications \<^verbatim>\<open>{s:<40}\<close> and the padding part of \<^verbatim>\<open>{x:>8...}\<close>.\<close>

definition ljust :: "nat \<Rightarrow> string \<Rightarrow> string" where
  "ljust w s = s @ replicate (w - length s) (CHR '' '')"

definition rjust :: "nat \<Rightarrow> string \<Rightarrow> string" where
  "rjust w s = replicate (w - length s) (CHR '' '') @ s"


section \<open>The tester's configuration\<close>

datatype arch = amd64 | arm64

fun speed_files :: "arch \<Rightarrow> string" where
  "speed_files amd64 = ''dists/stable/main/binary-amd64/Packages.gz''"
| "speed_files arm64 = ''dists/stable/main/binary-arm64/Packages.gz''"

definition timeout :: rat where
  "timeout = 1"

definition chunk_size :: nat where
  "chunk_size = 65536"

definition download_limit :: nat where
  "download_limit = 512 * 1024"

definition max_connections :: nat where
  "max_connections = 12"


section \<open>get_mirrors\<close>

text \<open>
  The listing page as the parser presents it to the loop: every \<^verbatim>\<open>tr\<close> is the list of
  its \<^verbatim>\<open>td\<close> cells, every cell the list of its \<^verbatim>\<open>a\<close> tags in document order, every
  tag its \<^verbatim>\<open>href\<close> attribute, if it has one. The GET of the listing either raises or
  gives a status code and a page.
\<close>

type_synonym anchor = "string option"
type_synonym cell = "anchor list"
type_synonym row = "cell list"

datatype listing = GetRaises py_exn | Page int "row list"

text \<open>\<^verbatim>\<open>response.raise_for_status()\<close> raises for the status codes 400 to 599.\<close>

definition raise_for_status :: "int \<Rightarrow> py_exn + unit" where
  "raise_for_status status =
     (if 400 \<le> status \<and> status < 600 then Inl (HTTPError status) else Inr ())"

text \<open>The body of the loop over the rows: the href this row contributes, if any.\<close>

definition row_href :: "row \<Rightarrow> string option" where
  "row_href cols =
     (if length cols \<ge> 2 then
        (case cols ! 1 of
           [] \<Rightarrow> None
         | link # _ \<Rightarrow>
             (case link of
                None \<Rightarrow> None
              | Some href \<Rightarrow> if href \<noteq> [] then Some href else None))
      else None)"

fun collect_hrefs :: "string list \<Rightarrow> row list \<Rightarrow> string list" where
  "collect_hrefs mirrors [] = mirrors"
| "collect_hrefs mirrors (r # rows) =
     collect_hrefs (case row_href r of None \<Rightarrow> mirrors | Some h \<Rightarrow> mirrors @ [h]) rows"

text \<open>The \<^verbatim>\<open>try\<close> block of \<^verbatim>\<open>get_mirrors\<close>.\<close>

definition get_mirrors_try :: "listing \<Rightarrow> py_exn + string list" where
  "get_mirrors_try l =
     (case l of
        GetRaises e \<Rightarrow> Inl e
      | Page status rows \<Rightarrow>
          (case raise_for_status status of
             Inl e \<Rightarrow> Inl e
           | Inr _ \<Rightarrow> Inr (dict_fromkeys (collect_hrefs [] rows))))"

text \<open>
  \<^verbatim>\<open>get_mirrors\<close> as a whole. The result type keeps the possibility of an exception
  leaving the function; the \<^verbatim>\<open>except Exception\<close> handler logs and returns the empty list.
\<close>

definition get_mirrors :: "listing \<Rightarrow> py_exn + string list" where
  "get_mirrors l = (case get_mirrors_try l of Inl e \<Rightarrow> Inr [] | Inr ms \<Rightarrow> Inr ms)"


section \<open>test_mirror_speed\<close>

text \<open>
  A response body as the chunk iterator delivers it: a chunk is represented by its
  length, paired with the reading of the clock right after it has been counted (the
  reading is consulted only when the loop gets to its time check). The stream ends
  normally or with an exception raised by the iterator.
\<close>

datatype stream = Eof | Broken py_exn | Chunk nat rat stream

datatype reply = Raises py_exn | Reply int stream

text \<open>
  One \<^verbatim>\<open>session.get\<close>: the clock before the request, what the request does, and the
  clock after the reading loop.
\<close>

record exchange =
  t_start :: rat
  reply :: reply
  t_end :: rat

text \<open>
  The library functions and the network, as parameters. \<^verbatim>\<open>urljoin\<close> and \<^verbatim>\<open>urlparse\<close>
  may raise (ValueError on a malformed URL); \<^verbatim>\<open>urlparse\<close> gives netloc and path.
  \<open>finished_at\<close> is the moment at which the task submitted for a mirror completes
  and \<^verbatim>\<open>format_2f\<close> the rendering of a float with the format \<^verbatim>\<open>.2f\<close>.
\<close>

record world =
  urljoin :: "string \<Rightarrow> string \<Rightarrow> py_exn + string"
  urlparse :: "string \<Rightarrow> py_exn + (string \<times> string)"
  session_get :: "string \<Rightarrow> exchange"
  finished_at :: "string \<Rightarrow> rat"
  format_2f :: "rat \<Rightarrow> string"

definition schemes :: "string \<Rightarrow> string list" where
  "schemes mirror =
     (if startswith mirror ''http://'' then [''https'', ''http''] else [''http'', ''https''])"

text \<open>
  The loop over the chunks, from the running \<open>total_size\<close>. \<open>Inl\<close> is an exception of
  the iterator, \<open>Inr\<close> the value of \<open>total_size\<close> when the loop is left.
\<close>

fun iter_content :: "rat \<Rightarrow> stream \<Rightarrow> nat \<Rightarrow> py_exn + nat" where
  "iter_content start_time Eof total_size = Inr total_size"
| "iter_content start_time (Broken e) total_size = Inl e"
| "iter_content start_time (Chunk n now rest) total_size =
     (if 0 < n then
        (let total_size = total_size + n in
         if total_size \<ge> download_limit then Inr total_size
         else if now - start_time > timeout then Inr total_size
         else iter_content start_time rest total_size)
      else iter_content start_time rest total_size)"

definition speed_of :: "nat \<Rightarrow> rat \<Rightarrow> rat" where
  "speed_of total_size duration = of_nat total_size / duration / 1024 / 1024"

definition base_url_of :: "string \<Rightarrow> py_exn + string" where
  "base_url_of mirror =
     (if str_contains mirror ''/debian/''
      then Inr (slice_to mirror (str_find mirror ''/debian/'' + 8))
      else item0 (str_rsplit mirror (CHR ''/'') 4))"

text \<open>
  The body of the \<^verbatim>\<open>try\<close> for one scheme: \<open>Inl\<close> is an exception, \<open>Inr (Some r)\<close> the
  \<^verbatim>\<open>return\<close>, \<open>Inr None\<close> the end of the body without a return.
\<close>

definition try_body :: "world \<Rightarrow> string \<Rightarrow> string \<Rightarrow> string \<Rightarrow> py_exn + (string \<times> rat) option" where
  "try_body w mirror url scheme =
     (case urlparse w url of
        Inl e \<Rightarrow> Inl e
      | Inr (netloc, path) \<Rightarrow>
          (let test_url = scheme @ ''://'' @ netloc @ path;
               x = session_get w test_url
           in case reply x of
                Raises e \<Rightarrow> Inl e
              | Reply status body \<Rightarrow>
                  (case raise_for_status status of
                     Inl e \<Rightarrow> Inl e
                   | Inr _ \<Rightarrow>
                       (case iter_content (t_start x) body 0 of
                          Inl e \<Rightarrow> Inl e
                        | Inr total_size \<Rightarrow>
                            (let duration = t_end x - t_start x in
                             if duration > 0 \<and> total_size > 0 then
                               (let speed = speed_of total_size duration in
                                case base_url_of mirror of
                                  Inl e \<Rightarrow> Inl e
                                | Inr base_url \<Rightarrow> Inr (Some (base_url, speed)))
                             else Inr None)))))"

text \<open>The \<^verbatim>\<open>for scheme in schemes\<close> loop with its \<^verbatim>\<open>except: continue\<close>.\<close>

fun for_schemes :: "world \<Rightarrow> string \<Rightarrow> string \<Rightarrow> string list \<Rightarrow> string option \<times> rat" where
  "for_schemes w mirror url [] = (None, 0)"
| "for_schemes w mirror url (scheme # rest) =
     (case try_body w mirror url scheme of
        Inr (Some (base_url, speed)) \<Rightarrow> (Some base_url, speed)
      | Inr None \<Rightarrow> for_schemes w mirror url rest
      | Inl e \<Rightarrow> for_schemes w mirror url rest)"

text \<open>The join of the URL happens before the loop, outside every handler.\<close>

definition test_mirror_speed :: "world \<Rightarrow> string \<Rightarrow> string \<Rightarrow> py_exn + (string option \<times> rat)" where
  "test_mirror_speed w mirror test_file =
     (case urljoin w mirror test_file of
        Inl e \<Rightarrow> Inl e
      | Inr url \<Rightarrow> Inr (for_schemes w mirror url (schemes mirror)))"


section \<open>main\<close>

text \<open>
  The loop over the completed futures: the state is the result dict and the progress
  counter. A string is true when it is not empty.
\<close>

definition on_completed ::
  "py_exn + (string option \<times> rat) \<Rightarrow> rat dict \<times> nat \<Rightarrow> rat dict \<times> nat" where
  "on_completed result st =
     (case st of (arch_results, pbar) \<Rightarrow>
        ((case result of
            Inl e \<Rightarrow> arch_results
          | Inr (base_url, speed) \<Rightarrow>
              (case base_url of
                 None \<Rightarrow> arch_results
               | Some b \<Rightarrow>
                   if b \<noteq> [] \<and> speed > 0 then dict_set arch_results b speed
                   else arch_results)),
         pbar + 1))"

text \<open>
  \<^verbatim>\<open>as_completed\<close> yields every submitted task once, in the order of completion. The
  mirrors are distinct, so every order of completion is the order of some completion
  times.
\<close>

definition as_completed :: "world \<Rightarrow> string list \<Rightarrow> string list" where
  "as_completed w mirrors = sort_key (finished_at w) mirrors"

definition run_tasks :: "world \<Rightarrow> string \<Rightarrow> string list \<Rightarrow> rat dict \<times> nat" where
  "run_tasks w test_file mirrors =
     fold (\<lambda>mirror. on_completed (test_mirror_speed w mirror test_file))
       (as_completed w mirrors) ([], 0)"

text \<open>\<^verbatim>\<open>sorted(items, key=lambda x: x[1], reverse=True)[:5]\<close>; the sort is stable.\<close>

definition sorted_mirrors :: "rat dict \<Rightarrow> (string \<times> rat) list" where
  "sorted_mirrors arch_results = take 5 (sort_key (\<lambda>x. - snd x) arch_results)"

text \<open>The arguments of the \<^verbatim>\<open>print\<close> calls of the report, in order.\<close>

definition report_prints :: "world \<Rightarrow> (string \<times> rat) list \<Rightarrow> string list" where
  "report_prints w ranked =
     (case ranked of
        [] \<Rightarrow> [CHR 0x0A # ''No working mirrors found'']
      | fastest # _ \<Rightarrow>
          [CHR 0x0A # ''Top 5 mirrors by Packages.gz download speed:'',
           CHR 0x0A # ''Mirror                                     Speed (MB/s)'',
           replicate 60 (CHR ''-'')]
          @ map (\<lambda>(mirror, speed). ljust 40 mirror @ '' '' @ rjust 8 (format_2f w speed)) ranked
          @ [CHR 0x0A # ''Sources list entries for fastest mirror:'',
             ''deb '' @ fst fastest @ '' stable main contrib non-free'',
             ''deb '' @ fst fastest @ '' stable-updates main contrib non-free''])"

text \<open>\<^verbatim>\<open>print(s)\<close> writes \<open>s\<close> and a newline; the output is what all calls wrote.\<close>

definition stdout_of :: "string list \<Rightarrow> string" where
  "stdout_of prints = concat (map (\<lambda>s. s @ [CHR 0x0A]) prints)"

definition system_arch :: "string \<Rightarrow> arch" where
  "system_arch machine = (if startswith machine ''aarch64'' then arm64 else amd64)"

text \<open>
  \<^verbatim>\<open>main\<close>: \<open>Inl\<close> is an exception that ends the program, \<open>Inr\<close> the standard output
  of a run that ends normally.
\<close>

definition main_prints :: "world \<Rightarrow> string list \<Rightarrow> rat dict \<Rightarrow> string list" where
  "main_prints w mirrors arch_results =
     [CHR 0x0A # ''Testing '' @ str_nat (length mirrors) @ '' mirrors...'']
     @ report_prints w (sorted_mirrors arch_results)
     @ [CHR 0x0A # ''Tested '' @ str_nat (length mirrors) @ '' mirrors, found ''
          @ str_nat (length arch_results) @ '' working'']"

definition main :: "string \<Rightarrow> listing \<Rightarrow> world \<Rightarrow> py_exn + string" where
  "main machine l w =
     (case get_mirrors l of
        Inl e \<Rightarrow> Inl e
      | Inr mirrors \<Rightarrow>
          (let arch_results = fst (run_tasks w (speed_files (system_arch machine)) mirrors)
           in Inr (stdout_of (main_prints w mirrors arch_results))))"


section \<open>Example inputs\<close>

definition demo_exchange :: "nat \<Rightarrow> exchange" where
  "demo_exchange n = \<lparr>t_start = 0, reply = Reply 200 (Chunk n (1/4) Eof), t_end = 1/2\<rparr>"

text \<open>
  A mirror that answers on both schemes: two MiB in half a second over the secure
  scheme, one MiB in half a second over the plain one.
\<close>

definition demo_world :: world where
  "demo_world =
     \<lparr>urljoin = (\<lambda>b f. Inr (b @ f)),
      urlparse = (\<lambda>u. Inr (''deb.example'', ''/debian/dists/stable/main/binary-amd64/Packages.gz'')),
      session_get = (\<lambda>u. if startswith u ''https'' then demo_exchange 2097152 else demo_exchange 1048576),
      finished_at = (\<lambda>m. of_nat (length m)),
      format_2f = (\<lambda>r. ''0.00'')\<rparr>"

text \<open>
  The same mirror on a network where it answers over the plain scheme only.
\<close>

definition plain_world :: world where
  "plain_world =
     \<lparr>urljoin = (\<lambda>b f. Inr (b @ f)),
      urlparse = (\<lambda>u. Inr (''deb.example'', ''/debian/dists/stable/main/binary-amd64/Packages.gz'')),
      session_get = (\<lambda>u. if startswith u ''https''
                           then \<lparr>t_start = 0, reply = Raises RequestException, t_end = 1\<rparr>
                           else demo_exchange 1048576),
      finished_at = (\<lambda>m. of_nat (length m)),
      format_2f = (\<lambda>r. ''0.00'')\<rparr>"

text \<open>A network on which every request fails before a response arrives.\<close>

definition dead_world :: world where
  "dead_world =
     \<lparr>urljoin = (\<lambda>b f. Inr (b @ f)),
      urlparse = (\<lambda>u. Inr (''deb.example'', ''/debian/dists/stable/main/binary-amd64/Packages.gz'')),
      session_get = (\<lambda>u. \<lparr>t_start = 0, reply = Raises RequestException, t_end = 1\<rparr>),
      finished_at = (\<lambda>m. 0),
      format_2f = (\<lambda>r. ''0.00'')\<rparr>"

text \<open>Eight chunks one byte short of the chunk size, then full ones.\<close>

definition short_chunks :: stream where
  "short_chunks =
     Chunk 65535 0 (Chunk 65535 0 (Chunk 65535 0 (Chunk 65535 0
    (Chunk 65535 0 (Chunk 65535 0 (Chunk 65535 0 (Chunk 65535 0
    (Chunk 65536 0 (Chunk 65536 0 Eof)))))))))"

text \<open>The lengths of the chunks of a stream, in order.\<close>

fun chunk_lengths :: "stream \<Rightarrow> nat list" where
  "chunk_lengths Eof = []"
| "chunk_lengths (Broken e) = []"
| "chunk_lengths (Chunk n now rest) = n # chunk_lengths rest"

text \<open>
  Removing duplicates as the specification words it: every element stays at its first
  occurrence and its later occurrences are dropped.
\<close>

fun first_occurrences :: "'a list \<Rightarrow> 'a list" where
  "first_occurrences [] = []"
| "first_occurrences (x # xs) = x # first_occurrences (filter (\<lambda>y. y \<noteq> x) xs)"

text \<open>A result dict with seven entries, two of them with the same speed.\<close>

definition demo_results :: "rat dict" where
  "demo_results =
     [(''http://a.example/debian/'', 1), (''http://b.example/debian/'', 3),
      (''http://c.example/debian/'', 2), (''http://d.example/debian/'', 3),
      (''http://e.example/debian/'', 5), (''http://f.example/debian/'', 4),
      (''http://g.example/debian/'', 1 / 2)]"

text \<open>
  The failures of one scheme attempt as the specification lists them: a transport error
  or timeout (the request or the chunk iterator raises, or the URL does not parse), a
  status that \<^verbatim>\<open>raise_for_status\<close> rejects, a sample of zero bytes, a sample of no
  duration.
\<close>

definition attempt_fails :: "world \<Rightarrow> string \<Rightarrow> string \<Rightarrow> bool" where
  "attempt_fails w url scheme =
     (case urlparse w url of
        Inl e \<Rightarrow> True
      | Inr (netloc, path) \<Rightarrow>
          (case reply (session_get w (scheme @ ''://'' @ netloc @ path)) of
             Raises e \<Rightarrow> True
           | Reply status body \<Rightarrow>
               (400 \<le> status \<and> status < 600)
               \<or> (case iter_content (t_start (session_get w (scheme @ ''://'' @ netloc @ path))) body 0 of
                     Inl e \<Rightarrow> True
                   | Inr total_size \<Rightarrow>
                       total_size = 0
                       \<or> t_end (session_get w (scheme @ ''://'' @ netloc @ path))
                            \<le> t_start (session_get w (scheme @ ''://'' @ netloc @ path)))))"

text \<open>
  A row of the listing page: a first cell without a link, a second cell with one link.
\<close>

definition demo_row :: "string \<Rightarrow> row" where
  "demo_row href = [Nil, [Some href]]"

text \<open>Three candidates of a listing.\<close>

definition demo_mirrors :: "string list" where
  "demo_mirrors =
     [''http://a.example/debian/'', ''http://b.example/debian/'', ''https://c.example/debian/'']"


section \<open>Evaluating the example inputs\<close>

lemma demo_world_sel:
  "urljoin demo_world b f = Inr (b @ f)"
  "urlparse demo_world u = Inr (''deb.example'', ''/debian/dists/stable/main/binary-amd64/Packages.gz'')"
  "session_get demo_world u = (if startswith u ''https'' then demo_exchange 2097152 else demo_exchange 1048576)"
  by (simp_all add: demo_world_def)

lemma schemes_demo: "schemes ''http://deb.example/debian/'' = [''https'', ''http'']"
  by (simp add: schemes_def startswith_def)

lemma base_url_demo: "base_url_of ''http://deb.example/debian/'' = Inr ''http://deb.example/debian/''"
  by (simp add: base_url_of_def str_contains_def str_find_def slice_to_def startswith_def)

lemma iter_content_demo: "iter_content 0 (Chunk 2097152 (1/4) Eof) 0 = Inr 2097152"
  by (simp add: download_limit_def)

lemma speed_demo: "speed_of 2097152 (1/2) = 4"
  by (simp add: speed_of_def)

lemma try_body_demo:
  "try_body demo_world ''http://deb.example/debian/'' u ''https''
     = Inr (Some (''http://deb.example/debian/'', 4))"
  by (simp add: try_body_def demo_world_sel startswith_def demo_exchange_def
      raise_for_status_def base_url_demo iter_content_demo speed_demo)

lemma probe_demo:
  "test_mirror_speed demo_world ''http://deb.example/debian/'' (speed_files amd64)
     = Inr (Some ''http://deb.example/debian/'', 4)"
  by (simp add: test_mirror_speed_def schemes_demo try_body_demo demo_world_sel)

section \<open>Scheme order\<close>

lemma for_schemes_two:
  "for_schemes w mirror url [s1, s2] =
     (case try_body w mirror url s1 of
        Inr (Some (b, s)) \<Rightarrow> (Some b, s)
      | _ \<Rightarrow> (case try_body w mirror url s2 of
                Inr (Some (b, s)) \<Rightarrow> (Some b, s)
              | _ \<Rightarrow> (None, 0)))"
  by (simp split: sum.splits option.splits prod.splits)

text \<open>
  C1, as stated, fails: for a candidate that starts with \<open>http://\<close> the list of
  schemes begins with the secure scheme.
\<close>

theorem scheme_order_counterexample:
  "startswith ''http://deb.example/debian/'' ''http://''
   \<and> schemes ''http://deb.example/debian/'' = [''https'', ''http'']
   \<and> schemes ''http://deb.example/debian/'' \<noteq> [''http'', ''https'']"
  by (simp add: schemes_def startswith_def)

text \<open>
  C1, amended: when the join of the URL succeeds, the probe of a candidate that starts
  with \<open>http://\<close> tries the secure scheme first and the plain scheme second; the probe
  of any other candidate tries the plain scheme first and the secure scheme second. The
  result is the first return of a scheme body in that order, and no result when
  neither returns.
\<close>

theorem scheme_trial_order:
  assumes "urljoin w mirror test_file = Inr url"
  shows "test_mirror_speed w mirror test_file =
     Inr (let first = (if startswith mirror ''http://'' then ''https'' else ''http'');
              second = (if startswith mirror ''http://'' then ''http'' else ''https'')
          in case try_body w mirror url first of
               Inr (Some (b, s)) \<Rightarrow> (Some b, s)
             | _ \<Rightarrow> (case try_body w mirror url second of
                       Inr (Some (b, s)) \<Rightarrow> (Some b, s)
                     | _ \<Rightarrow> (None, 0)))"
  using assms
  by (simp only: test_mirror_speed_def schemes_def for_schemes_two Let_def sum.case if_distrib split: if_splits) simp

text \<open>The probe of a plain-HTTP candidate on the example network, answered over HTTPS.\<close>

theorem scheme_trial_order_witness:
  "urljoin demo_world ''http://deb.example/debian/'' (speed_files amd64)
     = Inr ''http://deb.example/debian/dists/stable/main/binary-amd64/Packages.gz''
   \<and> test_mirror_speed demo_world ''http://deb.example/debian/'' (speed_files amd64)
     = Inr (Some ''http://deb.example/debian/'', 4)"
proof -
  have j: "urljoin demo_world ''http://deb.example/debian/'' (speed_files amd64)
     = Inr ''http://deb.example/debian/dists/stable/main/binary-amd64/Packages.gz''"
    by (simp add: demo_world_sel)
  have sw: "startswith ''http://deb.example/debian/'' ''http://''"
    by (simp add: startswith_def)
  show ?thesis
    using scheme_trial_order [OF j] by (simp add: demo_world_sel sw try_body_demo)
qed


section \<open>get_mirrors on a failing request\<close>

lemma str_nat_0: "str_nat 0 = ''0''"
  by (simp add: str_nat.simps)

lemma run_tasks_Nil: "run_tasks w f [] = ([], 0)"
  by (simp add: run_tasks_def as_completed_def)

lemma main_no_mirrors:
  assumes "get_mirrors l = Inr []"
  shows "main machine l w =
     Inr ''\<newline>Testing 0 mirrors...\<newline>\<newline>No working mirrors found\<newline>\<newline>Tested 0 mirrors, found 0 working\<newline>''"
  using assms
  by (simp add: main_def run_tasks_Nil main_prints_def sorted_mirrors_def report_prints_def
      stdout_of_def str_nat_0)

text \<open>
  C2, as stated, fails: when the GET of the listing raises, and when it answers 404,
  \<^verbatim>\<open>get_mirrors\<close> returns the empty list, and the run goes on to its report.
\<close>

theorem get_mirrors_error_counterexample:
  "get_mirrors (GetRaises RequestException) = Inr []
   \<and> get_mirrors (Page 404 []) = Inr []
   \<and> main ''x86_64'' (Page 404 []) demo_world =
       Inr ''\<newline>Testing 0 mirrors...\<newline>\<newline>No working mirrors found\<newline>\<newline>Tested 0 mirrors, found 0 working\<newline>''"
proof -
  have a: "get_mirrors (GetRaises RequestException) = Inr []"
    by (simp add: get_mirrors_def get_mirrors_try_def)
  have b: "get_mirrors (Page 404 []) = Inr []"
    by (simp add: get_mirrors_def get_mirrors_try_def raise_for_status_def)
  show ?thesis using a b main_no_mirrors [OF b] by simp
qed

text \<open>
  C2, amended: when the GET of the listing raises or answers with a status from 400 to
  599, \<^verbatim>\<open>get_mirrors\<close> raises nothing and returns the empty list, and the run ends
  normally with the report of a run without candidates.
\<close>

theorem get_mirrors_error_gives_empty:
  assumes "l = GetRaises e \<or> (l = Page status rows \<and> 400 \<le> status \<and> status < 600)"
  shows "get_mirrors l = Inr []
   \<and> main machine l w =
     Inr ''\<newline>Testing 0 mirrors...\<newline>\<newline>No working mirrors found\<newline>\<newline>Tested 0 mirrors, found 0 working\<newline>''"
proof -
  have g: "get_mirrors l = Inr []"
    using assms by (auto simp: get_mirrors_def get_mirrors_try_def raise_for_status_def)
  show ?thesis
    using g main_no_mirrors [OF g] by simp
qed

text \<open>A listing answered with status 503: its rows are not looked at.\<close>

theorem get_mirrors_error_gives_empty_witness:
  "get_mirrors (Page 503 [demo_row ''http://deb.example/debian/'']) = Inr []
   \<and> main ''aarch64'' (Page 503 [demo_row ''http://deb.example/debian/'']) dead_world =
     Inr ''\<newline>Testing 0 mirrors...\<newline>\<newline>No working mirrors found\<newline>\<newline>Tested 0 mirrors, found 0 working\<newline>''"
  using get_mirrors_error_gives_empty
    [of "Page 503 [demo_row ''http://deb.example/debian/'']" RequestException 503
        "[demo_row ''http://deb.example/debian/'']" "''aarch64''" dead_world]
  by simp

section \<open>Throughput\<close>

lemma for_schemes_Some:
  "for_schemes w mirror url ss = (Some b, speed) \<Longrightarrow>
     \<exists>scheme \<in> set ss. try_body w mirror url scheme = Inr (Some (b, speed))"
  by (induction ss) (auto split: sum.splits option.splits prod.splits)

lemma try_body_Some:
  assumes "try_body w mirror url scheme = Inr (Some (b, speed))"
  shows "\<exists>netloc path status body total_size.
           urlparse w url = Inr (netloc, path)
         \<and> reply (session_get w (scheme @ ''://'' @ netloc @ path)) = Reply status body
         \<and> raise_for_status status = Inr ()
         \<and> iter_content (t_start (session_get w (scheme @ ''://'' @ netloc @ path))) body 0
             = Inr total_size
         \<and> 0 < total_size
         \<and> 0 < t_end (session_get w (scheme @ ''://'' @ netloc @ path))
                 - t_start (session_get w (scheme @ ''://'' @ netloc @ path))
         \<and> speed = speed_of total_size
                 (t_end (session_get w (scheme @ ''://'' @ netloc @ path))
                   - t_start (session_get w (scheme @ ''://'' @ netloc @ path)))
         \<and> base_url_of mirror = Inr b"
  using assms
  by (auto simp: try_body_def Let_def split: sum.splits reply.splits if_splits prod.splits)

lemma probe_Some:
  assumes "test_mirror_speed w mirror test_file = Inr (Some b, speed)"
  shows "\<exists>url scheme. urljoin w mirror test_file = Inr url \<and> scheme \<in> set (schemes mirror)
           \<and> try_body w mirror url scheme = Inr (Some (b, speed))"
  using assms
  by (auto simp: test_mirror_speed_def split: sum.splits dest: for_schemes_Some)

text \<open>
  C3, as stated, fails: on the example network the probe counts 2097152 bytes in half
  a second and returns 4, not 4194304.
\<close>

theorem throughput_unit_counterexample:
  "test_mirror_speed demo_world ''http://deb.example/debian/'' (speed_files amd64)
     = Inr (Some ''http://deb.example/debian/'', 4)
   \<and> reply (session_get demo_world ''https://x'') = Reply 200 (Chunk 2097152 (1/4) Eof)
   \<and> iter_content 0 (Chunk 2097152 (1/4) Eof) 0 = Inr 2097152
   \<and> t_end (session_get demo_world ''https://x'') - t_start (session_get demo_world ''https://x'') = 1/2
   \<and> (4 :: rat) \<noteq> of_nat 2097152 / (1/2)"
  using probe_demo
  by (simp add: iter_content_demo demo_world_sel startswith_def demo_exchange_def)

text \<open>
  C3, amended: the speed of every successful probe is the number of bytes counted,
  divided by the seconds elapsed, divided by 1024 and by 1024 again: mebibytes per
  second. Both the byte count and the elapsed time are positive.
\<close>

theorem throughput_is_mib_per_second:
  assumes "test_mirror_speed w mirror test_file = Inr (Some b, speed)"
  shows "\<exists>test_url status body total_size.
           reply (session_get w test_url) = Reply status body
         \<and> iter_content (t_start (session_get w test_url)) body 0 = Inr total_size
         \<and> 0 < total_size
         \<and> 0 < t_end (session_get w test_url) - t_start (session_get w test_url)
         \<and> speed = of_nat total_size
                     / (t_end (session_get w test_url) - t_start (session_get w test_url))
                     / 1024 / 1024
         \<and> 0 < speed"
proof -
  from probe_Some [OF assms] obtain url scheme where
    "try_body w mirror url scheme = Inr (Some (b, speed))" by blast
  from try_body_Some [OF this] obtain netloc path status body total_size where
    h: "reply (session_get w (scheme @ ''://'' @ netloc @ path)) = Reply status body"
       "iter_content (t_start (session_get w (scheme @ ''://'' @ netloc @ path))) body 0
             = Inr total_size"
       "0 < total_size"
       "0 < t_end (session_get w (scheme @ ''://'' @ netloc @ path))
                 - t_start (session_get w (scheme @ ''://'' @ netloc @ path))"
       "speed = speed_of total_size
                 (t_end (session_get w (scheme @ ''://'' @ netloc @ path))
                   - t_start (session_get w (scheme @ ''://'' @ netloc @ path)))"
    by blast
  have "0 < speed"
    using h(3,4,5) by (simp add: speed_of_def)
  with h show ?thesis
    unfolding speed_of_def by blast
qed

theorem throughput_is_mib_per_second_witness:
  "\<exists>test_url status body total_size.
           reply (session_get demo_world test_url) = Reply status body
         \<and> iter_content (t_start (session_get demo_world test_url)) body 0 = Inr total_size
         \<and> 0 < total_size
         \<and> 0 < t_end (session_get demo_world test_url) - t_start (session_get demo_world test_url)
         \<and> (4 :: rat) = of_nat total_size
                     / (t_end (session_get demo_world test_url) - t_start (session_get demo_world test_url))
                     / 1024 / 1024
         \<and> 0 < (4 :: rat)"
  by (rule throughput_is_mib_per_second [OF probe_demo])


section \<open>The byte count of the reading loop\<close>

lemma iter_content_bound:
  assumes "iter_content start_time body t0 = Inr total_size"
    and "t0 < download_limit"
    and "\<forall>n \<in> set (chunk_lengths body). n \<le> bound"
  shows "total_size < download_limit + bound"
  using assms
proof (induction body arbitrary: t0)
  case Eof
  then show ?case by simp
next
  case (Broken e)
  then show ?case by simp
next
  case (Chunk n now rest)
  show ?case
  proof (cases "0 < n")
    case False
    with Chunk.prems have "iter_content start_time rest t0 = Inr total_size" by simp
    from Chunk.IH [OF this Chunk.prems(2)] Chunk.prems(3) show ?thesis by simp
  next
    case True
    have n: "n \<le> bound" using Chunk.prems(3) by simp
    show ?thesis
    proof (cases "t0 + n \<ge> download_limit \<or> now - start_time > timeout")
      case True
      with \<open>0 < n\<close> Chunk.prems(1) have "total_size = t0 + n"
        by (auto simp: Let_def split: if_splits)
      with n Chunk.prems(2) show ?thesis by simp
    next
      case False
      with \<open>0 < n\<close> Chunk.prems(1) have "iter_content start_time rest (t0 + n) = Inr total_size"
        by (auto simp: Let_def split: if_splits)
      moreover from False have "t0 + n < download_limit" by simp
      ultimately show ?thesis
        using Chunk.IH [of "t0 + n"] Chunk.prems(3) by simp
    qed
  qed
qed

lemma iter_content_short_chunks: "iter_content 0 short_chunks 0 = Inr 589816"
  by (simp add: short_chunks_def download_limit_def timeout_def)

text \<open>
  C4, as stated, fails: on a stream of eight chunks of 65535 bytes followed by full
  chunks the loop leaves with 589816 bytes counted, more than the limit of 524288.
\<close>

theorem byte_cap_counterexample:
  "iter_content 0 short_chunks 0 = Inr 589816 \<and> download_limit = 524288
   \<and> (589816 :: nat) > download_limit
   \<and> list_all (\<lambda>n. n \<le> chunk_size) (chunk_lengths short_chunks)"
  by (simp add: iter_content_short_chunks) (simp add: short_chunks_def download_limit_def chunk_size_def)

text \<open>
  C4, amended: the loop stops after the chunk with which the count reaches the limit,
  so the count stays below the limit plus the size of one chunk: for every stream whose
  chunks have at most \<open>chunk_size\<close> bytes, the byte count of the probe is less than
  512 KiB + 64 KiB.
\<close>

theorem byte_count_below_cap_plus_chunk:
  assumes "iter_content start_time body 0 = Inr total_size"
    and "\<forall>n \<in> set (chunk_lengths body). n \<le> chunk_size"
  shows "total_size < download_limit + chunk_size \<and> download_limit + chunk_size = 589824"
proof -
  have "0 < download_limit" by (simp add: download_limit_def)
  from iter_content_bound [OF assms(1) this assms(2)]
  show ?thesis by (simp add: download_limit_def chunk_size_def)
qed

theorem byte_count_below_cap_plus_chunk_witness:
  "iter_content 0 short_chunks 0 = Inr 589816
   \<and> (589816 :: nat) < download_limit + chunk_size"
proof -
  have "\<forall>n \<in> set (chunk_lengths short_chunks). n \<le> chunk_size"
    by (simp add: short_chunks_def chunk_size_def)
  from byte_count_below_cap_plus_chunk [OF iter_content_short_chunks this]
  show ?thesis by (simp add: iter_content_short_chunks)
qed


section \<open>Deduplication of the candidates\<close>

lemma set_first_occurrences: "set (first_occurrences xs) = set xs"
  by (induction xs rule: first_occurrences.induct) auto

lemma distinct_first_occurrences: "distinct (first_occurrences xs)"
  by (induction xs rule: first_occurrences.induct) (auto simp: set_first_occurrences)

lemma fromkeys_aux_eq:
  "fromkeys_aux keys xs = keys @ first_occurrences (filter (\<lambda>y. y \<notin> set keys) xs)"
proof (induction xs arbitrary: keys)
  case Nil
  then show ?case by simp
next
  case (Cons x xs)
  show ?case
  proof (cases "x \<in> set keys")
    case True
    then show ?thesis using Cons.IH [of keys] by simp
  next
    case False
    have "filter (\<lambda>y. y \<noteq> x) (filter (\<lambda>y. y \<notin> set keys) xs)
            = filter (\<lambda>y. y \<notin> set (keys @ [x])) xs"
      by (induction xs) auto
    then show ?thesis using False Cons.IH [of "keys @ [x]"] by simp
  qed
qed

lemma dict_fromkeys_eq: "dict_fromkeys xs = first_occurrences xs"
  by (simp add: dict_fromkeys_def fromkeys_aux_eq)

text \<open>
  C8: on a listing that is fetched, \<^verbatim>\<open>get_mirrors\<close> returns the hrefs collected from
  the rows with every string kept at its first occurrence and dropped at its later
  ones: the result has no duplicates, has the same elements as the collected sequence,
  and keeps their order of first occurrence. A sequence of three hrefs with two
  different strings gives two candidates.
\<close>

theorem get_mirrors_dedup:
  assumes "raise_for_status status = Inr ()"
    and "collect_hrefs [] rows = hrefs"
  shows "\<exists>mirrors. get_mirrors (Page status rows) = Inr mirrors
     \<and> mirrors = first_occurrences hrefs
     \<and> distinct mirrors \<and> set mirrors = set hrefs
     \<and> (length hrefs = 3 \<and> card (set hrefs) = 2 \<longrightarrow> length mirrors = 2)"
proof -
  have g: "get_mirrors (Page status rows) = Inr (first_occurrences hrefs)"
    using assms by (simp add: get_mirrors_def get_mirrors_try_def dict_fromkeys_eq)
  have "length (first_occurrences hrefs) = card (set hrefs)"
    using distinct_card [OF distinct_first_occurrences [of hrefs]]
    by (simp add: set_first_occurrences)
  then show ?thesis
    using g by (auto simp: distinct_first_occurrences set_first_occurrences)
qed

theorem get_mirrors_dedup_witness:
  "get_mirrors (Page 200
       [demo_row ''http://a.example/debian/'',
        demo_row ''http://b.example/debian/'',
        demo_row ''http://a.example/debian/''])
     = Inr [''http://a.example/debian/'', ''http://b.example/debian/'']"
proof -
  have s: "raise_for_status 200 = Inr ()"
    by (simp add: raise_for_status_def)
  have c: "collect_hrefs []
       [demo_row ''http://a.example/debian/'',
        demo_row ''http://b.example/debian/'',
        demo_row ''http://a.example/debian/'']
     = [''http://a.example/debian/'', ''http://b.example/debian/'', ''http://a.example/debian/'']"
    by (simp add: row_href_def demo_row_def)
  from get_mirrors_dedup [OF s c] show ?thesis by simp
qed


section \<open>The base URL\<close>

lemma startswith_self: "startswith p p"
  by (simp add: startswith_def)

lemma find_index_bound:
  "find_index p s = Some k \<Longrightarrow> k + length p \<le> length s"
proof (induction s arbitrary: k)
  case Nil
  then show ?case by (simp split: if_splits)
next
  case (Cons c cs)
  show ?case
  proof (cases "startswith (c # cs) p")
    case True
    then have "length (take (length p) (c # cs)) = length p"
      by (simp only: startswith_def)
    then have "length p \<le> length (c # cs)"
      by simp
    with True Cons.prems show ?thesis by simp
  next
    case False
    with Cons.prems obtain k' where "find_index p cs = Some k'" "k = Suc k'" by auto
    with Cons.IH show ?thesis by simp
  qed
qed

lemma find_index_split:
  "find_index p s = Some k \<Longrightarrow> s = take k s @ p @ drop (k + length p) s"
proof (induction s arbitrary: k)
  case Nil
  then show ?case by (simp split: if_splits)
next
  case (Cons c cs)
  show ?case
  proof (cases "startswith (c # cs) p")
    case True
    with Cons.prems have "k = 0" by simp
    moreover from True have "c # cs = p @ drop (length p) (c # cs)"
      by (metis startswith_def append_take_drop_id)
    ultimately show ?thesis by simp
  next
    case False
    with Cons.prems obtain k' where k': "find_index p cs = Some k'" "k = Suc k'" by auto
    from Cons.IH [OF k'(1)] k'(2) show ?thesis by simp
  qed
qed

lemma find_index_first:
  "find_index p s = Some k \<Longrightarrow> j < k \<Longrightarrow> \<not> startswith (drop j s) p"
proof (induction s arbitrary: k j)
  case Nil
  then show ?case by (simp split: if_splits)
next
  case (Cons c cs)
  from Cons.prems have ns: "\<not> startswith (c # cs) p"
    by (auto split: if_splits)
  with Cons.prems obtain k' where k': "find_index p cs = Some k'" "k = Suc k'" by auto
  show ?case
  proof (cases j)
    case 0
    with ns show ?thesis by simp
  next
    case (Suc j')
    with Cons.prems(2) k'(2) have "j' < k'" by simp
    from Cons.IH [OF k'(1) this] Suc show ?thesis by simp
  qed
qed

lemma find_index_take:
  "find_index p s = Some k \<Longrightarrow> find_index p (take (k + length p) s) = Some k"
proof (induction s arbitrary: k)
  case Nil
  then show ?case by (simp split: if_splits)
next
  case (Cons c cs)
  show ?case
  proof (cases "startswith (c # cs) p")
    case True
    with Cons.prems have k: "k = 0" by simp
    from True have "take (length p) (c # cs) = p" by (simp add: startswith_def)
    then have "find_index p (take (length p) (c # cs)) = Some 0"
      by (cases p) (auto simp: startswith_def)
    with k show ?thesis by simp
  next
    case False
    with Cons.prems obtain k' where k': "find_index p cs = Some k'" "k = Suc k'" by auto
    have "take (length p) (c # take (k' + length p) cs) = take (length p) (c # cs)"
      by (cases "length p") (simp_all add: min_def)
    with False have "\<not> startswith (c # take (k' + length p) cs) p"
      by (simp add: startswith_def)
    with Cons.IH [OF k'(1)] k'(2) show ?thesis by simp
  qed
qed


lemma find_index_prefix:
  assumes "find_index p s = Some k"
  shows "take (k + length p) s = take k s @ p" and "length (take k s) = k"
proof -
  have len: "k + length p \<le> length s"
    using find_index_bound [OF assms] .
  then show l: "length (take k s) = k" by simp
  have "take (k + length p) (take k s @ p @ drop (k + length p) s) = take k s @ p"
    using l by simp
  then show "take (k + length p) s = take k s @ p"
    using find_index_split [OF assms] by simp
qed

lemma base_url_of_marker:
  assumes "find_index ''/debian/'' mirror = Some k"
  shows "base_url_of mirror = Inr (take (k + length ''/debian/'') mirror)"
proof -
  have e: "length ''/debian/'' = 8" by simp
  have "base_url_of mirror = Inr (take (k + 8) mirror)"
    using assms
    by (simp add: base_url_of_def str_contains_def str_find_def slice_to_def nat_add_distrib)
  then show ?thesis by (simp only: e)
qed

lemma base_url_of_cut:
  assumes k: "find_index ''/debian/'' url = Some k"
  shows "url = take k url @ ''/debian/'' @ drop (k + length ''/debian/'') url"
    and "\<forall>j < length (take k url). \<not> startswith (drop j url) ''/debian/''"
    and "base_url_of url = Inr (take k url @ ''/debian/'')"
    and "find_index ''/debian/'' (take k url @ ''/debian/'') = Some k"
proof -
  show "url = take k url @ ''/debian/'' @ drop (k + length ''/debian/'') url"
    by (rule find_index_split [OF k])
  show "\<forall>j < length (take k url). \<not> startswith (drop j url) ''/debian/''"
    using find_index_first [OF k] by (simp only: find_index_prefix(2) [OF k]) blast
  show "base_url_of url = Inr (take k url @ ''/debian/'')"
    by (simp only: base_url_of_marker [OF k] find_index_prefix(1) [OF k])
  show "find_index ''/debian/'' (take k url @ ''/debian/'') = Some k"
    using find_index_take [OF k] by (simp only: find_index_prefix(1) [OF k])
qed

text \<open>
  C10: for every URL that contains \<open>/debian/\<close>, the base URL is the URL cut right after
  the first occurrence of the marker, so it ends with the marker, and the base URL of
  the base URL is the base URL itself.
\<close>

theorem base_url_marker_idempotent:
  assumes "str_contains url ''/debian/''"
  shows "\<exists>pre post. url = pre @ ''/debian/'' @ post
           \<and> (\<forall>j < length pre. \<not> startswith (drop j url) ''/debian/'')
           \<and> base_url_of url = Inr (pre @ ''/debian/'')
           \<and> str_contains (pre @ ''/debian/'') ''/debian/''
           \<and> base_url_of (pre @ ''/debian/'') = Inr (pre @ ''/debian/'')"
proof -
  from assms obtain k where k: "find_index ''/debian/'' url = Some k"
    by (auto simp only: str_contains_def)
  define pre where "pre = take k url"
  define post where "post = drop (k + length ''/debian/'') url"
  note cut = base_url_of_cut [OF k, folded pre_def post_def]
  have k2: "find_index ''/debian/'' (pre @ ''/debian/'') = Some k"
    by (rule cut(4))
  have c: "str_contains (pre @ ''/debian/'') ''/debian/''"
    by (simp only: str_contains_def k2) simp
  have lp: "length pre = k"
    unfolding pre_def by (rule find_index_prefix(2) [OF k])
  have "take k (pre @ ''/debian/'') = pre"
    using lp by simp
  with base_url_of_cut(3) [OF k2]
  have idem: "base_url_of (pre @ ''/debian/'') = Inr (pre @ ''/debian/'')"
    by (simp only:)
  from cut(1) cut(2) cut(3) c idem show ?thesis by blast
qed

text \<open>The listed URL of a mirror, followed by more of a path.\<close>

theorem base_url_marker_idempotent_witness:
  "str_contains ''http://deb.example/debian/dists/stable'' ''/debian/''
   \<and> base_url_of ''http://deb.example/debian/dists/stable'' = Inr ''http://deb.example/debian/''
   \<and> base_url_of ''http://deb.example/debian/'' = Inr ''http://deb.example/debian/''"
proof -
  have c: "str_contains ''http://deb.example/debian/dists/stable'' ''/debian/''"
    by (simp add: str_contains_def startswith_def)
  have b: "base_url_of ''http://deb.example/debian/dists/stable'' = Inr ''http://deb.example/debian/''"
    by (simp add: base_url_of_def str_contains_def str_find_def slice_to_def startswith_def)
  from base_url_marker_idempotent [OF c] obtain pre post where
    "base_url_of ''http://deb.example/debian/dists/stable'' = Inr (pre @ ''/debian/'')"
    "base_url_of (pre @ ''/debian/'') = Inr (pre @ ''/debian/'')"
    by blast
  with b c show ?thesis by simp
qed


section \<open>The base URL of a successful probe\<close>

lemma plain_world_sel:
  "urljoin plain_world b f = Inr (b @ f)"
  "urlparse plain_world u = Inr (''deb.example'', ''/debian/dists/stable/main/binary-amd64/Packages.gz'')"
  "session_get plain_world u =
     (if startswith u ''https'' then \<lparr>t_start = 0, reply = Raises RequestException, t_end = 1\<rparr>
      else demo_exchange 1048576)"
  by (simp_all add: plain_world_def)

lemma probe_plain:
  "test_mirror_speed plain_world ''http://deb.example/debian/'' (speed_files amd64)
     = Inr (Some ''http://deb.example/debian/'', 2)"
proof -
  have i: "iter_content 0 (Chunk 1048576 (1/4) Eof) 0 = Inr 1048576"
    by (simp add: download_limit_def)
  have v: "speed_of 1048576 (1/2) = 2"
    by (simp add: speed_of_def)
  have s: "try_body plain_world ''http://deb.example/debian/'' u ''https'' = Inl RequestException" for u
    by (simp add: try_body_def plain_world_sel startswith_def)
  have p: "try_body plain_world ''http://deb.example/debian/'' u ''http''
     = Inr (Some (''http://deb.example/debian/'', 2))" for u
    by (simp add: try_body_def plain_world_sel startswith_def demo_exchange_def
        raise_for_status_def base_url_demo i v)
  show ?thesis
    by (simp add: test_mirror_speed_def schemes_demo plain_world_sel s p)
qed

text \<open>
  C5, as stated, fails: the probe of the candidate \<open>http://deb.example/debian/\<close> succeeds
  over the secure scheme, and the base URL it returns keeps the plain scheme of the
  candidate, where the URL of the successful request, cut after the marker, has the
  secure one.
\<close>

theorem base_url_source_counterexample:
  "try_body demo_world ''http://deb.example/debian/''
      ''http://deb.example/debian/dists/stable/main/binary-amd64/Packages.gz'' ''https''
     = Inr (Some (''http://deb.example/debian/'', 4))
   \<and> test_mirror_speed demo_world ''http://deb.example/debian/'' (speed_files amd64)
     = Inr (Some ''http://deb.example/debian/'', 4)
   \<and> base_url_of ''https://deb.example/debian/dists/stable/main/binary-amd64/Packages.gz''
     = Inr ''https://deb.example/debian/''
   \<and> ''http://deb.example/debian/'' \<noteq> ''https://deb.example/debian/''"
proof -
  have a: "base_url_of ''https://deb.example/debian/dists/stable/main/binary-amd64/Packages.gz''
     = Inr ''https://deb.example/debian/''"
    by (simp add: base_url_of_def str_contains_def str_find_def slice_to_def startswith_def)
  show ?thesis
    using probe_demo a by (simp add: try_body_demo)
qed

text \<open>
  C5, amended: for every successful probe, the base URL returned is derived from the
  candidate string as it was listed: every successful probe of the same candidate
  returns the same base URL, whatever the network, the file and the scheme of the
  request that succeeded. When the candidate contains \<open>/debian/\<close>, the base URL is the
  candidate up to and including the first occurrence of that marker.
\<close>

theorem base_url_from_candidate:
  assumes "test_mirror_speed w mirror test_file = Inr (Some b, speed)"
  shows "(\<forall>w' test_file' b' speed'.
            test_mirror_speed w' mirror test_file' = Inr (Some b', speed') \<longrightarrow> b' = b)
     \<and> (str_contains mirror ''/debian/'' \<longrightarrow>
          (\<exists>pre post. mirror = pre @ ''/debian/'' @ post \<and> b = pre @ ''/debian/''
             \<and> (\<forall>j < length pre. \<not> startswith (drop j mirror) ''/debian/'')))"
proof -
  have from_candidate: "base_url_of mirror = Inr b'"
    if "test_mirror_speed w' mirror test_file' = Inr (Some b', speed')"
    for w' test_file' b' speed'
  proof -
    from probe_Some [OF that] obtain url scheme where
      "try_body w' mirror url scheme = Inr (Some (b', speed'))" by blast
    from try_body_Some [OF this] show ?thesis by blast
  qed
  have b: "base_url_of mirror = Inr b"
    by (rule from_candidate [OF assms])
  have same: "\<forall>w' test_file' b' speed'.
            test_mirror_speed w' mirror test_file' = Inr (Some b', speed') \<longrightarrow> b' = b"
  proof (intro allI impI)
    fix w' test_file' b' speed'
    assume "test_mirror_speed w' mirror test_file' = Inr (Some b', speed')"
    from from_candidate [OF this] b show "b' = b" by simp
  qed
  have m: "\<exists>pre post. mirror = pre @ ''/debian/'' @ post \<and> b = pre @ ''/debian/''
             \<and> (\<forall>j < length pre. \<not> startswith (drop j mirror) ''/debian/'')"
    if c: "str_contains mirror ''/debian/''"
  proof -
    from c obtain k where k: "find_index ''/debian/'' mirror = Some k"
      by (auto simp only: str_contains_def)
    from base_url_of_cut(3) [OF k] b have "b = take k mirror @ ''/debian/''"
      by (simp only: sum.inject)
    with base_url_of_cut(1) [OF k] base_url_of_cut(2) [OF k] show ?thesis by blast
  qed
  from same m show ?thesis by blast
qed

text \<open>
  The example candidate, answered over HTTPS on one network and over plain HTTP on
  another: the base URL is the same.
\<close>

theorem base_url_from_candidate_witness:
  "test_mirror_speed demo_world ''http://deb.example/debian/'' (speed_files amd64)
     = Inr (Some ''http://deb.example/debian/'', 4)
   \<and> test_mirror_speed plain_world ''http://deb.example/debian/'' (speed_files amd64)
     = Inr (Some ''http://deb.example/debian/'', 2)
   \<and> str_contains ''http://deb.example/debian/'' ''/debian/''
   \<and> (\<exists>pre post. ''http://deb.example/debian/'' = pre @ ''/debian/'' @ post
         \<and> ''http://deb.example/debian/'' = pre @ ''/debian/'')"
proof -
  have c: "str_contains ''http://deb.example/debian/'' ''/debian/''"
    by (simp add: str_contains_def startswith_def)
  from base_url_from_candidate [OF probe_demo] c
  have "\<exists>pre post. ''http://deb.example/debian/'' = pre @ ''/debian/'' @ post
         \<and> ''http://deb.example/debian/'' = pre @ ''/debian/''"
    by blast
  with c probe_demo probe_plain show ?thesis by blast
qed


section \<open>The ranked report\<close>

lemma sort_desc_sorted:
  "sorted_wrt (\<lambda>x y. snd y \<le> snd x) (sort_key (\<lambda>x. - snd x) (rs :: rat dict))"
proof -
  have "sorted (map (\<lambda>x. - snd x) (sort_key (\<lambda>x. - snd x) rs))"
    by (rule sorted_sort_key)
  then show ?thesis
    by (simp add: sorted_map)
qed

lemma take_drop_ordered:
  assumes "sorted_wrt P xs"
  shows "\<forall>x \<in> set (take n xs). \<forall>y \<in> set (drop n xs). P x y"
proof -
  have "sorted_wrt P (take n xs @ drop n xs)"
    using assms by simp
  then show ?thesis
    by (simp only: sorted_wrt_append) blast
qed

text \<open>
  C6: for every result dict, the ranked report has \<open>min 5 n\<close> entries for a dict of
  \<open>n\<close> entries (so at most that many), it is sorted by speed in descending order, its
  entries are entries of the dict, every entry left out is no faster than any entry
  of the report, and it is empty when the dict is empty.
\<close>

theorem ranked_report_top5:
  "length (sorted_mirrors rs) = min 5 (length rs)
   \<and> length (sorted_mirrors rs) \<le> min 5 (length rs)
   \<and> sorted_wrt (\<lambda>x y. snd y \<le> snd x) (sorted_mirrors rs)
   \<and> mset (sorted_mirrors rs) \<subseteq># mset rs
   \<and> (\<forall>y \<in># mset rs - mset (sorted_mirrors rs). \<forall>x \<in> set (sorted_mirrors rs). snd y \<le> snd x)
   \<and> (rs = [] \<longrightarrow> sorted_mirrors rs = [])"
proof -
  let ?s = "sort_key (\<lambda>x. - snd x) rs"
  have len: "length (sorted_mirrors rs) = min 5 (length rs)"
    by (simp add: sorted_mirrors_def min.commute)
  have srt: "sorted_wrt (\<lambda>x y. snd y \<le> snd x) (sorted_mirrors rs)"
    unfolding sorted_mirrors_def by (rule sorted_wrt_take [OF sort_desc_sorted])
  have split: "mset rs = mset (take 5 ?s) + mset (drop 5 ?s)"
  proof -
    have "mset (take 5 ?s) + mset (drop 5 ?s) = mset (take 5 ?s @ drop 5 ?s)"
      by (simp only: mset_append)
    also have "\<dots> = mset ?s" by (simp only: append_take_drop_id)
    also have "\<dots> = mset rs" by (rule mset_sort)
    finally show ?thesis by simp
  qed
  have sub: "mset (sorted_mirrors rs) \<subseteq># mset rs"
    unfolding sorted_mirrors_def split by simp
  have rest: "mset rs - mset (sorted_mirrors rs) = mset (drop 5 ?s)"
    unfolding sorted_mirrors_def split by simp
  have top: "\<forall>y \<in># mset rs - mset (sorted_mirrors rs). \<forall>x \<in> set (sorted_mirrors rs). snd y \<le> snd x"
    unfolding rest using take_drop_ordered [OF sort_desc_sorted, of 5 rs]
    by (simp add: sorted_mirrors_def)
  have emp: "rs = [] \<longrightarrow> sorted_mirrors rs = []"
    by (simp add: sorted_mirrors_def)
  from len srt sub top emp show ?thesis by simp
qed

lemma sorted_mirrors_demo:
  "sorted_mirrors demo_results =
     [(''http://e.example/debian/'', 5), (''http://f.example/debian/'', 4),
      (''http://b.example/debian/'', 3), (''http://d.example/debian/'', 3),
      (''http://c.example/debian/'', 2)]"
  by (simp add: sorted_mirrors_def demo_results_def)

text \<open>Seven results: the five fastest stay, the two of speed 3 in their order of insertion.\<close>

theorem ranked_report_top5_witness:
  "sorted_mirrors demo_results =
     [(''http://e.example/debian/'', 5), (''http://f.example/debian/'', 4),
      (''http://b.example/debian/'', 3), (''http://d.example/debian/'', 3),
      (''http://c.example/debian/'', 2)]
   \<and> length (sorted_mirrors demo_results) = min 5 (length demo_results)
   \<and> sorted_wrt (\<lambda>x y. snd y \<le> snd x) (sorted_mirrors demo_results)
   \<and> mset (sorted_mirrors demo_results) \<subseteq># mset demo_results"
  using ranked_report_top5 [of demo_results] sorted_mirrors_demo by simp


section \<open>Failures of a probe and the progress counter\<close>

lemma try_body_fails:
  assumes "attempt_fails w url scheme"
  shows "try_body w mirror url scheme \<noteq> Inr (Some r)"
proof
  assume "try_body w mirror url scheme = Inr (Some r)"
  then have "try_body w mirror url scheme = Inr (Some (fst r, snd r))" by simp
  from try_body_Some [OF this] obtain netloc path status body total_size where
    h: "urlparse w url = Inr (netloc, path)"
       "reply (session_get w (scheme @ ''://'' @ netloc @ path)) = Reply status body"
       "raise_for_status status = Inr ()"
       "iter_content (t_start (session_get w (scheme @ ''://'' @ netloc @ path))) body 0
             = Inr total_size"
       "0 < total_size"
       "0 < t_end (session_get w (scheme @ ''://'' @ netloc @ path))
                 - t_start (session_get w (scheme @ ''://'' @ netloc @ path))"
    by blast
  from h(3) have "\<not> (400 \<le> status \<and> status < 600)"
    by (auto simp: raise_for_status_def split: if_splits)
  with assms h(1,2,4,5,6) show False
    by (simp add: attempt_fails_def)
qed

lemma for_schemes_all_fail:
  "(\<forall>scheme \<in> set ss. attempt_fails w url scheme) \<Longrightarrow> for_schemes w mirror url ss = (None, 0)"
proof (induction ss)
  case Nil
  then show ?case by simp
next
  case (Cons s ss)
  then have "attempt_fails w url s" by simp
  from try_body_fails [OF this]
  have "\<And>b sp. try_body w mirror url s \<noteq> Inr (Some (b, sp))" by blast
  with Cons show ?case
    by (auto split: sum.splits option.splits prod.splits)
qed

lemma fold_on_completed_count:
  "snd (fold (\<lambda>m. on_completed (f m)) ms st) = snd st + length ms"
  by (induction ms arbitrary: st) (auto simp: on_completed_def split: prod.splits)

lemma run_tasks_count: "snd (run_tasks w test_file mirrors) = length mirrors"
  by (simp add: run_tasks_def fold_on_completed_count as_completed_def)

text \<open>
  C7: when the join of the URL succeeds, the probe raises nothing, and when every
  scheme attempt fails in one of the listed ways it returns the no-result value
  \<open>(None, 0)\<close>. The loop over the completed tasks keeps the results unchanged on a
  no-result value and on an exception of the task, and adds one to the progress counter
  in every case; after the loop the counter is the number of candidates submitted.
\<close>

theorem probe_failures_are_silent:
  assumes "urljoin w mirror test_file = Inr url"
  shows "(\<exists>r. test_mirror_speed w mirror test_file = Inr r)
   \<and> ((\<forall>scheme \<in> set (schemes mirror). attempt_fails w url scheme) \<longrightarrow>
        test_mirror_speed w mirror test_file = Inr (None, 0))
   \<and> on_completed (Inr (None, 0)) (arch_results, pbar) = (arch_results, pbar + 1)
   \<and> on_completed (Inl e) (arch_results, pbar) = (arch_results, pbar + 1)
   \<and> snd (on_completed result (arch_results, pbar)) = pbar + 1
   \<and> snd (run_tasks w test_file mirrors) = length mirrors"
proof -
  have t: "test_mirror_speed w mirror test_file = Inr (for_schemes w mirror url (schemes mirror))"
    using assms by (simp add: test_mirror_speed_def)
  have a: "\<exists>r. test_mirror_speed w mirror test_file = Inr r"
    using t by blast
  have b: "(\<forall>scheme \<in> set (schemes mirror). attempt_fails w url scheme) \<longrightarrow>
        test_mirror_speed w mirror test_file = Inr (None, 0)"
    using t for_schemes_all_fail [of "schemes mirror" w url mirror] by simp
  have c: "on_completed (Inr (None, 0)) (arch_results, pbar) = (arch_results, pbar + 1)"
    by (simp add: on_completed_def)
  have d: "on_completed (Inl e) (arch_results, pbar) = (arch_results, pbar + 1)"
    by (simp add: on_completed_def)
  have f: "snd (on_completed result (arch_results, pbar)) = pbar + 1"
    by (simp add: on_completed_def)
  from a b c d f run_tasks_count show ?thesis by blast
qed

lemma dead_world_sel:
  "urljoin dead_world b f = Inr (b @ f)"
  "urlparse dead_world u = Inr (''deb.example'', ''/debian/dists/stable/main/binary-amd64/Packages.gz'')"
  "session_get dead_world u = \<lparr>t_start = 0, reply = Raises RequestException, t_end = 1\<rparr>"
  "finished_at dead_world m = 0"
  by (simp_all add: dead_world_def)

lemma dead_world_fails: "attempt_fails dead_world url scheme"
  by (simp add: attempt_fails_def dead_world_sel)

text \<open>Three candidates on a network where every request fails.\<close>

theorem probe_failures_are_silent_witness:
  "urljoin dead_world ''http://a.example/debian/'' (speed_files amd64)
     = Inr (''http://a.example/debian/'' @ speed_files amd64)
   \<and> test_mirror_speed dead_world ''http://a.example/debian/'' (speed_files amd64) = Inr (None, 0)
   \<and> snd (run_tasks dead_world (speed_files amd64) demo_mirrors) = 3"
proof -
  have j: "urljoin dead_world ''http://a.example/debian/'' (speed_files amd64)
     = Inr (''http://a.example/debian/'' @ speed_files amd64)"
    by (simp only: dead_world_sel)
  have l: "length demo_mirrors = 3" by (simp add: demo_mirrors_def)
  from probe_failures_are_silent [OF j, of "[]" 0 RequestException "Inl RequestException" demo_mirrors]
    dead_world_fails j l
  show ?thesis by simp
qed


section \<open>The report\<close>

lemma get_mirrors_returns: "\<exists>mirrors. get_mirrors l = Inr mirrors"
  by (simp add: get_mirrors_def split: sum.splits)

lemma stdout_of_snoc: "stdout_of (ps @ [s]) = stdout_of ps @ s @ [CHR 0x0A]"
  by (simp add: stdout_of_def)

lemma main_prints_last:
  "stdout_of (main_prints w mirrors arch_results) =
     stdout_of (butlast (main_prints w mirrors arch_results))
     @ (CHR 0x0A # ''Tested '' @ str_nat (length mirrors) @ '' mirrors, found ''
          @ str_nat (length arch_results) @ '' working'') @ [CHR 0x0A]"
proof -
  let ?s = "CHR 0x0A # ''Tested '' @ str_nat (length mirrors) @ '' mirrors, found ''
          @ str_nat (length arch_results) @ '' working''"
  let ?ps = "[CHR 0x0A # ''Testing '' @ str_nat (length mirrors) @ '' mirrors...'']
     @ report_prints w (sorted_mirrors arch_results)"
  have e: "main_prints w mirrors arch_results = ?ps @ [?s]"
    by (simp only: main_prints_def append_assoc)
  have "butlast (?ps @ [?s]) = ?ps" by (rule butlast_snoc)
  then show ?thesis
    by (simp only: e stdout_of_snoc)
qed

lemma main_prints_empty:
  "stdout_of (main_prints w mirrors []) =
     (CHR 0x0A # ''Testing '' @ str_nat (length mirrors) @ '' mirrors...'') @ [CHR 0x0A]
     @ (CHR 0x0A # ''No working mirrors found'') @ [CHR 0x0A]
     @ (CHR 0x0A # ''Tested '' @ str_nat (length mirrors) @ '' mirrors, found 0 working'') @ [CHR 0x0A]"
  by (simp add: main_prints_def sorted_mirrors_def report_prints_def stdout_of_def str_nat_0)

text \<open>
  C9: every run ends normally, and the last thing it writes is the line
  \<open>Tested n mirrors, found m working\<close>, with \<open>n\<close> the number of candidates and \<open>m\<close> the
  number of entries of the result dict. When the result dict is empty, the output is
  the line that announces the test, the message \<open>No working mirrors found\<close> and that
  summary, with no table; without candidates the summary reads
  \<open>Tested 0 mirrors, found 0 working\<close>.
\<close>

theorem report_summary_last:
  "\<exists>mirrors arch_results before.
       get_mirrors l = Inr mirrors
     \<and> arch_results = fst (run_tasks w (speed_files (system_arch machine)) mirrors)
     \<and> main machine l w =
         Inr (before @ ''\<newline>Tested '' @ str_nat (length mirrors) @ '' mirrors, found ''
                @ str_nat (length arch_results) @ '' working\<newline>'')
     \<and> (arch_results = [] \<longrightarrow>
          main machine l w =
            Inr (''\<newline>Testing '' @ str_nat (length mirrors) @ '' mirrors...\<newline>''
                 @ ''\<newline>No working mirrors found\<newline>''
                 @ ''\<newline>Tested '' @ str_nat (length mirrors) @ '' mirrors, found 0 working\<newline>''))
     \<and> (mirrors = [] \<longrightarrow>
          main machine l w =
            Inr ''\<newline>Testing 0 mirrors...\<newline>\<newline>No working mirrors found\<newline>\<newline>Tested 0 mirrors, found 0 working\<newline>'')"
proof -
  from get_mirrors_returns obtain mirrors where g: "get_mirrors l = Inr mirrors" by blast
  define arch_results where
    "arch_results = fst (run_tasks w (speed_files (system_arch machine)) mirrors)"
  define before where "before = stdout_of (butlast (main_prints w mirrors arch_results))"
  have m: "main machine l w = Inr (stdout_of (main_prints w mirrors arch_results))"
    using g by (simp add: main_def arch_results_def)
  have 1: "main machine l w =
         Inr (before @ ''\<newline>Tested '' @ str_nat (length mirrors) @ '' mirrors, found ''
                @ str_nat (length arch_results) @ '' working\<newline>'')"
    unfolding m before_def by (subst main_prints_last) simp
  have 2: "main machine l w =
            Inr (''\<newline>Testing '' @ str_nat (length mirrors) @ '' mirrors...\<newline>''
                 @ ''\<newline>No working mirrors found\<newline>''
                 @ ''\<newline>Tested '' @ str_nat (length mirrors) @ '' mirrors, found 0 working\<newline>'')"
    if "arch_results = []"
    unfolding m that by (subst main_prints_empty) simp
  have 3: "main machine l w =
            Inr ''\<newline>Testing 0 mirrors...\<newline>\<newline>No working mirrors found\<newline>\<newline>Tested 0 mirrors, found 0 working\<newline>''"
    if "mirrors = []"
    using g that by (simp add: main_no_mirrors)
  from g arch_results_def 1 2 3 show ?thesis by blast
qed

lemma dead_world_probe: "test_mirror_speed dead_world mirror test_file = Inr (None, 0)"
  using for_schemes_all_fail [of "schemes mirror" dead_world "mirror @ test_file" mirror]
    dead_world_fails
  by (simp add: test_mirror_speed_def dead_world_sel)

lemma fold_no_results:
  "(\<And>m. f m = Inr (None, 0)) \<Longrightarrow> fst (fold (\<lambda>m. on_completed (f m)) ms st) = fst st"
  by (induction ms arbitrary: st) (auto simp: on_completed_def split: prod.splits)

lemma dead_world_results: "fst (run_tasks dead_world test_file mirrors) = []"
  unfolding run_tasks_def
  by (subst fold_no_results) (simp_all add: dead_world_probe)

text \<open>A listing of three candidates and a network on which every request fails.\<close>

theorem report_summary_last_witness:
  "main ''x86_64''
     (Page 200
       [demo_row ''http://a.example/debian/'',
        demo_row ''http://b.example/debian/'',
        demo_row ''https://c.example/debian/'']) dead_world
   = Inr ''\<newline>Testing 3 mirrors...\<newline>\<newline>No working mirrors found\<newline>\<newline>Tested 3 mirrors, found 0 working\<newline>''"
proof -
  let ?l = "Page 200
       [demo_row ''http://a.example/debian/'',
        demo_row ''http://b.example/debian/'',
        demo_row ''https://c.example/debian/'']"
  have g: "get_mirrors ?l = Inr demo_mirrors"
    by (simp add: get_mirrors_def get_mirrors_try_def raise_for_status_def row_href_def
        demo_row_def dict_fromkeys_def demo_mirrors_def)
  from report_summary_last [of ?l dead_world "''x86_64''"] obtain mirrors arch_results where
    h: "get_mirrors ?l = Inr mirrors"
       "arch_results = fst (run_tasks dead_world (speed_files (system_arch ''x86_64'')) mirrors)"
       "arch_results = [] \<longrightarrow>
          main ''x86_64'' ?l dead_world =
            Inr (''\<newline>Testing '' @ str_nat (length mirrors) @ '' mirrors...\<newline>''
                 @ ''\<newline>No working mirrors found\<newline>''
                 @ ''\<newline>Tested '' @ str_nat (length mirrors) @ '' mirrors, found 0 working\<newline>'')"
    by blast
  from h(1) g have m: "mirrors = demo_mirrors" by simp
  from h(2) have e: "arch_results = []" by (simp only: dead_world_results)
  have n: "str_nat (length demo_mirrors) = ''3''"
    by (simp add: demo_mirrors_def str_nat.simps)
  from h(3) e show ?thesis
    unfolding m n by simp
qed

end
